theory Spec2Isabelle
  imports Main
begin

section \<open>The language server proxy (languageServerProxy.ts)\<close>

subsection \<open>Handles, errors and effects\<close>

text \<open>
  Clients, cancellation strategies and readiness gates are objects of the heap; the
  model names each by a number. A client handle is the index of the factory invocation
  that produced it, so every invocation yields a new object.
\<close>

type_synonym client = nat
type_synonym strategy = nat
type_synonym gate_id = nat

text \<open>
  The entries of \<^verbatim>\<open>disposables\<close>: what \<^verbatim>\<open>languageClient.start()\<close> returns
  (line 97), the \<^verbatim>\<open>ProgressReporting\<close> object with the client its constructor was
  given (line 103), and the subscription \<^verbatim>\<open>interpreterPathService.onDidChange\<close>
  returns (line 108).
\<close>

datatype disposable =
    TransportStart client
  | ProgressReporting "client option"
  | InterpreterPathSubscription

datatype error =
    DisposedLanguageServer
  | LanguageClientNotInitialized
  | CreateClientFailed
  | ActivateFailed
  | DisposeThrew disposable
  | TypeError

text \<open>The calls the proxy makes on its collaborators, in the order it makes them.\<close>

datatype event =
    GetDirectory
  | NewStrategy strategy
  | CreateLanguageClient client
  | ClientStart client
  | ClientStop client
  | StrategyDispose strategy
  | DisposeCall disposable
  | Sleep nat
  | GateResolve gate_id
  | GateReject gate_id
  | OnTelemetryAttached client
  | TestActivate client
  | TraceError string error

subsection \<open>The readiness gate\<close>

text \<open>
  Modelled from the spec: \<^verbatim>\<open>createDeferred\<close> and \<^verbatim>\<open>Deferred\<close> of
  \<^verbatim>\<open>common/utils/async\<close> are not among the sources. The spec gives the gate the
  states pending, resolved and rejected, makes resolving and rejecting one-shot per gate
  instance, and gives it a queryable already-settled predicate (\<^verbatim>\<open>completed\<close>).
\<close>

datatype gate_state = Pending | Resolved | Rejected

text \<open>
  Modelled from the spec: \<^verbatim>\<open>resolve()\<close> of the gate, one-shot: it settles a pending
  gate and leaves a settled one as it is.
\<close>

definition resolve_gate :: "gate_state \<Rightarrow> gate_state" where
  "resolve_gate g = (case g of Pending \<Rightarrow> Resolved | Resolved \<Rightarrow> Resolved | Rejected \<Rightarrow> Rejected)"

text \<open>
  Modelled from the spec: \<^verbatim>\<open>reject(error)\<close> of the gate, one-shot in the same way.
\<close>

definition reject_gate :: "gate_state \<Rightarrow> gate_state" where
  "reject_gate g = (case g of Pending \<Rightarrow> Rejected | Resolved \<Rightarrow> Resolved | Rejected \<Rightarrow> Rejected)"

text \<open>
  Modelled from the spec: \<^verbatim>\<open>completed\<close>, the already-settled predicate that
  \<^verbatim>\<open>dispose\<close> queries at line 69.
\<close>

definition completed :: "gate_state \<Rightarrow> bool" where
  "completed g = (case g of Pending \<Rightarrow> False | Resolved \<Rightarrow> True | Rejected \<Rightarrow> True)"

subsection \<open>Invocations of start() and the state of the proxy\<close>

text \<open>
  \<^verbatim>\<open>start\<close> is an async function: it runs until its next \<^verbatim>\<open>await\<close>, gives
  control back, and is resumed later. An invocation is therefore a task whose program
  counter names the \<^verbatim>\<open>await\<close> it is suspended at:
  \<^item> \<open>AwaitDirectory\<close>: line 90, \<^verbatim>\<open>getCurrentLanguageServerDirectory()\<close>;
  \<^item> \<open>AwaitFactory k\<close>: line 96, the \<open>k\<close>-th \<^verbatim>\<open>createLanguageClient\<close> call;
  \<^item> \<open>AwaitSleep\<close>: line 150, \<^verbatim>\<open>sleep(100)\<close> inside \<^verbatim>\<open>serverReady\<close>;
  \<^item> \<open>AwaitServerReady\<close>: line 98, \<^verbatim>\<open>serverReady()\<close> has returned;
  \<^item> \<open>AwaitRegister\<close>: line 132, \<^verbatim>\<open>registerTestServices()\<close>;
  \<^item> \<open>AwaitGate g\<close>: line 134, the promise of the gate object \<open>g\<close>;
  \<^item> \<open>Done\<close> and \<open>Failed e\<close>: the promise of \<^verbatim>\<open>start\<close> is fulfilled, or
    rejected with \<open>e\<close>.
\<close>

datatype pc =
    AwaitDirectory
  | AwaitFactory nat
  | AwaitSleep
  | AwaitServerReady
  | AwaitRegister
  | AwaitGate gate_id
  | Done
  | Failed error

text \<open>
  The first six fields are the fields of the class \<^verbatim>\<open>NodeLanguageServerProxy\<close>
  (\<open>startupCompleted\<close> is a reference to a gate object). The others are the heap and
  the world around the proxy: the state of every gate object created so far, counters
  for fresh objects, how often \<^verbatim>\<open>initializeResult\<close> of each client has been read,
  the calls made so far, and the invocations of \<^verbatim>\<open>start\<close>.
\<close>

record world =
  languageClient :: "client option"
  startupCompleted :: gate_id
  cancellationStrategy :: "strategy option"
  disposables :: "disposable list"
  disposed :: bool
  lsVersion :: "string option"
  gates :: "gate_id \<Rightarrow> gate_state"
  next_gate :: nat
  strategies :: nat
  factory_calls :: nat
  reads :: "client \<Rightarrow> nat"
  trace :: "event list"
  tasks :: "pc list"

text \<open>
  What the collaborators answer. \<open>initializeResult env c k\<close> is whether the \<open>k\<close>-th
  read (counted from 0) of \<^verbatim>\<open>initializeResult\<close> of client \<open>c\<close> finds it present.
\<close>

record env =
  directory_version :: "string option"
  factory_fails :: "nat \<Rightarrow> bool"
  initializeResult :: "client \<Rightarrow> nat \<Rightarrow> bool"
  inExperiment :: bool
  downloadLanguageServer :: bool
  activate_fails :: "client \<Rightarrow> bool"
  dispose_throws :: "disposable \<Rightarrow> bool"

text \<open>The constructor (lines 37-46): every field at its initialiser, one pending gate.\<close>

definition new_proxy :: world where
  "new_proxy =
     \<lparr>languageClient = None, startupCompleted = 0, cancellationStrategy = None,
      disposables = [], disposed = False, lsVersion = None,
      gates = (\<lambda>_. Pending), next_gate = 1, strategies = 0, factory_calls = 0,
      reads = (\<lambda>_. 0), trace = [], tasks = []\<rparr>"

subsection \<open>dispose (lines 54-74)\<close>

text \<open>
  The loop of lines 65-68 takes the first entry off the list and calls its
  \<^verbatim>\<open>dispose\<close>; there is no \<^verbatim>\<open>try\<close> around the call, so an entry that throws
  ends the loop with the exception. The result is the exception (if any), the entries
  still in the list, and the entries whose \<^verbatim>\<open>dispose\<close> was called.
\<close>

fun drain :: "env \<Rightarrow> disposable list \<Rightarrow> error option \<times> disposable list \<times> disposable list" where
  "drain env [] = (None, [], [])"
| "drain env (d # ds) =
     (if dispose_throws env d then (Some (DisposeThrew d), ds, [d])
      else (case drain env ds of (r, rest, called) \<Rightarrow> (r, rest, d # called)))"

definition stop_client :: "world \<Rightarrow> world" where
  "stop_client w =
     (case languageClient w of
        None \<Rightarrow> w
      | Some c \<Rightarrow> w\<lparr>languageClient := None, trace := trace w @ [ClientStop c]\<rparr>)"

definition dispose_strategy :: "world \<Rightarrow> world" where
  "dispose_strategy w =
     (case cancellationStrategy w of
        None \<Rightarrow> w
      | Some s \<Rightarrow> w\<lparr>cancellationStrategy := None, trace := trace w @ [StrategyDispose s]\<rparr>)"

definition replace_gate :: "world \<Rightarrow> world" where
  "replace_gate w =
     (let g = startupCompleted w in
      if completed (gates w g)
      then w\<lparr>startupCompleted := next_gate w,
             gates := (gates w)(g := reject_gate (gates w g), next_gate w := Pending),
             next_gate := Suc (next_gate w),
             trace := trace w @ [GateReject g]\<rparr>
      else w)"

text \<open>
  An exception leaves the fields as they are at the throw, so \<open>dispose\<close> returns the
  state in both cases. \<^verbatim>\<open>stop()\<close> only starts the shutdown (its promise is not
  awaited, line 58); it and the \<^verbatim>\<open>dispose\<close> of the cancellation strategy are taken
  to return. The decorators on \<^verbatim>\<open>dispose\<close>, \<^verbatim>\<open>start\<close> and \<^verbatim>\<open>serverReady\<close>
  (tracing and telemetry) are taken to pass results and exceptions through.
\<close>

definition dispose :: "env \<Rightarrow> world \<Rightarrow> error option \<times> world" where
  "dispose env w =
     (let w2 = dispose_strategy (stop_client w) in
      case drain env (disposables w2) of
        (r, rest, called) \<Rightarrow>
          (let w3 = w2\<lparr>disposables := rest, trace := trace w2 @ map DisposeCall called\<rparr> in
           case r of
             Some e \<Rightarrow> (Some e, w3)
           | None \<Rightarrow> (None, (replace_gate w3)\<lparr>disposed := True\<rparr>)))"

subsection \<open>registerTestServices (lines 155-161)\<close>

text \<open>
  The body of the method. The settling of \<^verbatim>\<open>testManager.activate\<close> is folded into
  the call: nothing after line 160 reads the proxy.
\<close>

definition registerTestServices_body :: "env \<Rightarrow> world \<Rightarrow> error option \<times> world" where
  "registerTestServices_body env w =
     (case languageClient w of
        None \<Rightarrow> (Some LanguageClientNotInitialized, w)
      | Some c \<Rightarrow>
          (if activate_fails env c then Some ActivateFailed else None,
           w\<lparr>trace := trace w @ [TestActivate c]\<rparr>))"

text \<open>
  Modelled from the spec: the decorator \<^verbatim>\<open>swallowExceptions\<close> of
  \<^verbatim>\<open>common/utils/decorators\<close> is not among the sources. The spec describes it as a
  wrapper that catches all failures of the operation, logs them tagged with the context,
  and never propagates.
\<close>

definition swallowExceptions :: "string \<Rightarrow> error option \<times> world \<Rightarrow> error option \<times> world" where
  "swallowExceptions scope r =
     (case r of
        (None, w) \<Rightarrow> (None, w)
      | (Some e, w) \<Rightarrow> (None, w\<lparr>trace := trace w @ [TraceError scope e]\<rparr>))"

definition registerTestServices :: "env \<Rightarrow> world \<Rightarrow> error option \<times> world" where
  "registerTestServices env w =
     swallowExceptions ''Activating Unit Tests Manager for Language Server''
       (registerTestServices_body env w)"

subsection \<open>serverReady (lines 148-153)\<close>

text \<open>
  The loop condition \<^verbatim>\<open>this.languageClient && !this.languageClient.initializeResult\<close>:
  the marker is read only when the client handle is set.
\<close>

definition loop_test :: "env \<Rightarrow> world \<Rightarrow> bool \<times> world" where
  "loop_test env w =
     (case languageClient w of
        None \<Rightarrow> (False, w)
      | Some c \<Rightarrow>
          (\<not> initializeResult env c (reads w c),
           w\<lparr>reads := (reads w)(c := Suc (reads w c))\<rparr>))"

definition sleep :: "nat \<Rightarrow> world \<Rightarrow> world" where
  "sleep ms w = w\<lparr>trace := trace w @ [Sleep ms]\<rparr>"

definition resolve_startupCompleted :: "world \<Rightarrow> world" where
  "resolve_startupCompleted w =
     (let g = startupCompleted w in
      w\<lparr>gates := (gates w)(g := resolve_gate (gates w g)), trace := trace w @ [GateResolve g]\<rparr>)"

text \<open>
  The method run with nothing else scheduled between its polls. The loop has no bound,
  so the function is partial: \<open>None\<close> is a poll that never ends.
\<close>

partial_function (option) serverReady :: "env \<Rightarrow> world \<Rightarrow> world option" where
  "serverReady env w =
     (case loop_test env w of
        (b, w') \<Rightarrow>
          if b then serverReady env (sleep 100 w')
          else Some (resolve_startupCompleted w'))"

text \<open>
  One turn of the same loop, for an invocation of \<^verbatim>\<open>start\<close> that other code may
  interleave with: up to the next \<^verbatim>\<open>sleep\<close>, or to the return.
\<close>

definition serverReady_step :: "env \<Rightarrow> world \<Rightarrow> pc \<times> world" where
  "serverReady_step env w =
     (case loop_test env w of
        (b, w') \<Rightarrow>
          if b then (AwaitSleep, sleep 100 w')
          else (AwaitServerReady, resolve_startupCompleted w'))"

subsection \<open>start (lines 84-136)\<close>

text \<open>Lines 103-132: what \<^verbatim>\<open>start\<close> does once it is past the disposed check.\<close>

definition wire_features :: "env \<Rightarrow> world \<Rightarrow> pc \<times> world" where
  "wire_features env w =
     (let w1 = w\<lparr>disposables := disposables w @ [ProgressReporting (languageClient w)]\<rparr>;
          w2 = (if inExperiment env
                then w1\<lparr>disposables := disposables w1 @ [InterpreterPathSubscription]\<rparr>
                else w1)
      in if downloadLanguageServer env
         then (case languageClient w2 of
                 None \<Rightarrow> (Failed TypeError, w2)
               | Some c \<Rightarrow>
                   (case registerTestServices env (w2\<lparr>trace := trace w2 @ [OnTelemetryAttached c]\<rparr>) of
                      (None, w3) \<Rightarrow> (AwaitRegister, w3)
                    | (Some e, w3) \<Rightarrow> (Failed e, w3)))
         else (case registerTestServices env w2 of
                 (None, w3) \<Rightarrow> (AwaitRegister, w3)
               | (Some e, w3) \<Rightarrow> (Failed e, w3)))"

text \<open>
  What an invocation does when it is resumed at its \<^verbatim>\<open>await\<close>, up to the next one.
  An invocation waiting for a gate that is still pending stays where it is.
\<close>

fun continue_start :: "env \<Rightarrow> pc \<Rightarrow> world \<Rightarrow> pc \<times> world" where
  "continue_start env AwaitDirectory w =
     (AwaitFactory (factory_calls w),
      w\<lparr>lsVersion := directory_version env,
        cancellationStrategy := Some (strategies w),
        strategies := Suc (strategies w),
        factory_calls := Suc (factory_calls w),
        trace := trace w @ [NewStrategy (strategies w), CreateLanguageClient (factory_calls w)]\<rparr>)"
| "continue_start env (AwaitFactory k) w =
     (if factory_fails env k then (Failed CreateClientFailed, w)
      else serverReady_step env
             (w\<lparr>languageClient := Some k,
                disposables := disposables w @ [TransportStart k],
                trace := trace w @ [ClientStart k]\<rparr>))"
| "continue_start env AwaitSleep w = serverReady_step env w"
| "continue_start env AwaitServerReady w =
     (if disposed w then (Done, w) else wire_features env w)"
| "continue_start env AwaitRegister w = (Done, w)"
| "continue_start env (AwaitGate g) w =
     (case gates w g of
        Pending \<Rightarrow> (AwaitGate g, w)
      | Resolved \<Rightarrow> (Done, w)
      | Rejected \<Rightarrow> (Failed DisposedLanguageServer, w))"
| "continue_start env Done w = (Done, w)"
| "continue_start env (Failed e) w = (Failed e, w)"

text \<open>
  A call of \<^verbatim>\<open>start\<close> runs to its first \<^verbatim>\<open>await\<close>: line 90 when there is no
  client handle, line 134 (on the gate object that is current at that moment) otherwise.
\<close>

definition start :: "world \<Rightarrow> world" where
  "start w =
     (if languageClient w = None
      then w\<lparr>trace := trace w @ [GetDirectory], tasks := tasks w @ [AwaitDirectory]\<rparr>
      else w\<lparr>tasks := tasks w @ [AwaitGate (startupCompleted w)]\<rparr>)"

definition resume :: "env \<Rightarrow> nat \<Rightarrow> world \<Rightarrow> world" where
  "resume env t w =
     (if t < length (tasks w)
      then (case continue_start env (tasks w ! t) w of
              (p, w') \<Rightarrow> w'\<lparr>tasks := (tasks w')[t := p]\<rparr>)
      else w)"

text \<open>
  The event loop runs one thing at a time: a call of \<^verbatim>\<open>start\<close>, a call of
  \<^verbatim>\<open>dispose\<close> (an exception goes to its caller, the state stays), or one invocation
  resumed.
\<close>

datatype action = CallStart | CallDispose | Resume nat

fun perform :: "env \<Rightarrow> action \<Rightarrow> world \<Rightarrow> world" where
  "perform env CallStart w = start w"
| "perform env CallDispose w = snd (dispose env w)"
| "perform env (Resume t) w = resume env t w"

fun run :: "env \<Rightarrow> action list \<Rightarrow> world \<Rightarrow> world" where
  "run env [] w = w"
| "run env (a # as) w = run env as (perform env a w)"

text \<open>The entries whose \<^verbatim>\<open>dispose\<close> a trace records as called, in order.\<close>

fun dispose_calls :: "event list \<Rightarrow> disposable list" where
  "dispose_calls [] = []"
| "dispose_calls (DisposeCall d # es) = d # dispose_calls es"
| "dispose_calls (e # es) = dispose_calls es"

subsection \<open>The telemetry relay (lines 122-130)\<close>

text \<open>
  A telemetry event is a JavaScript object. A property is absent (\<open>None\<close>) or holds a
  value; \<^verbatim>\<open>EventName\<close> and \<^verbatim>\<open>Properties\<close> may be undefined (\<open>None\<close>). The type
  of \<^verbatim>\<open>Measurements\<close> is a parameter: the relay passes the field on untouched.
\<close>

datatype jsval = Undefined | Null | Str string | Num int | Boolean bool

type_synonym properties = "string \<Rightarrow> jsval option"

record 'm telemetryEvent =
  EventName :: "string option"
  Measurements :: 'm
  Properties :: "properties option"

text \<open>\<^verbatim>\<open>s.replace(/\//g, '.')\<close>: every slash of the string becomes a dot.\<close>

definition replace_slashes :: "string \<Rightarrow> string" where
  "replace_slashes s = map (\<lambda>c. if c = CHR ''/'' then CHR ''.'' else c) s"

text \<open>
  \<^verbatim>\<open>telemetryEvent.Properties.method?.replace(/\//g, '.')\<close>: optional chaining gives
  undefined for an absent, undefined or null \<^verbatim>\<open>method\<close>; a string is rewritten; any
  other value has no \<^verbatim>\<open>replace\<close>, and calling it is a TypeError.
\<close>

definition sanitize_method :: "jsval option \<Rightarrow> error + jsval" where
  "sanitize_method m =
     (case m of
        None \<Rightarrow> Inr Undefined
      | Some Undefined \<Rightarrow> Inr Undefined
      | Some Null \<Rightarrow> Inr Undefined
      | Some (Str s) \<Rightarrow> Inr (Str (replace_slashes s))
      | Some (Num _) \<Rightarrow> Inl TypeError
      | Some (Boolean _) \<Rightarrow> Inl TypeError)"

text \<open>
  The handler given to \<^verbatim>\<open>onTelemetry\<close>. Its result is the argument list of
  \<^verbatim>\<open>sendTelemetryEvent\<close>, or the exception it throws. \<open>fallback\<close> stands for the
  constant \<^verbatim>\<open>EventName.LANGUAGE_SERVER_TELEMETRY\<close>, which \<^verbatim>\<open>||\<close> selects when
  the event's name is undefined or the empty string. Reading \<^verbatim>\<open>.method\<close> of an
  undefined \<^verbatim>\<open>Properties\<close> is a TypeError.
\<close>

definition onTelemetry_handler ::
  "string \<Rightarrow> 'm telemetryEvent \<Rightarrow> error + (string \<times> 'm \<times> properties)" where
  "onTelemetry_handler fallback ev =
     (let eventName = (case EventName ev of
                         None \<Rightarrow> fallback
                       | Some n \<Rightarrow> if n = [] then fallback else n)
      in case Properties ev of
           None \<Rightarrow> Inl TypeError
         | Some ps \<Rightarrow>
             (case sanitize_method (ps ''method'') of
                Inl e \<Rightarrow> Inl e
              | Inr m \<Rightarrow> Inr (eventName, Measurements ev, ps(''method'' \<mapsto> m))))"

section \<open>The export dependency checker (exportManagerDependencyChecker.ts)\<close>

text \<open>
  The three collaborators act on a state \<open>'s\<close> of their own (the Jupyter installation);
  the export format and the notebook model are parameters. \<open>manager_export\<close> yields
  what the promise of \<^verbatim>\<open>manager.export\<close> settles to: a rejection, or a Uri or undefined.
  The two checks and the installation are taken to return.
\<close>

datatype export_error = JupyterNbConvertNotSupported | ManagerExportError string

datatype ('f, 'm) export_call =
    IsImportSupported
  | InstallMissingDependencies
  | ManagerExport 'f 'm

record ('s, 'f, 'm) collaborators =
  isImportSupported :: "'s \<Rightarrow> bool \<times> 's"
  installMissingDependencies :: "'s \<Rightarrow> 's"
  manager_export :: "'f \<Rightarrow> 'm \<Rightarrow> 's \<Rightarrow> (export_error + string option) \<times> 's"

text \<open>
  \<^verbatim>\<open>export\<close> (lines 17-28), on the collaborators' state paired with the calls made
  so far.
\<close>

definition export ::
  "('s, 'f, 'm) collaborators \<Rightarrow> 'f \<Rightarrow> 'm \<Rightarrow> 's \<times> ('f, 'm) export_call list \<Rightarrow>
     (export_error + string option) \<times> 's \<times> ('f, 'm) export_call list" where
  "export co format model st =
     (case st of (s0, calls0) \<Rightarrow>
        (case isImportSupported co s0 of (b1, s1) \<Rightarrow>
           (let calls1 = calls0 @ [IsImportSupported];
                (s2, calls2) =
                   (if \<not> b1
                    then (installMissingDependencies co s1, calls1 @ [InstallMissingDependencies])
                    else (s1, calls1))
            in case isImportSupported co s2 of (b2, s3) \<Rightarrow>
                 (let calls3 = calls2 @ [IsImportSupported] in
                  if b2
                  then (case manager_export co format model s3 of
                          (r, s4) \<Rightarrow> (r, s4, calls3 @ [ManagerExport format model]))
                  else (Inl JupyterNbConvertNotSupported, s3, calls3)))))"

section \<open>Concrete inputs\<close>

text \<open>
  Collaborators that never fail, with both feature switches on and a server whose
  \<^verbatim>\<open>initializeResult\<close> is present from the third read on.
\<close>

definition calm_env :: env where
  "calm_env =
     \<lparr>directory_version = Some ''0.5.30'', factory_fails = (\<lambda>_. False),
      initializeResult = (\<lambda>c k. 2 \<le> k), inExperiment = True,
      downloadLanguageServer = True, activate_fails = (\<lambda>_. False),
      dispose_throws = (\<lambda>_. False)\<rparr>"

text \<open>The same, but the disposable of the transport throws when it is disposed.\<close>

definition throwing_env :: env where
  "throwing_env = calm_env\<lparr>dispose_throws := (\<lambda>d. d = TransportStart 0)\<rparr>"

text \<open>
  A started session: the first \<^verbatim>\<open>start\<close> has run to its end, so the client is set,
  the gate is resolved and the subsidiary features are wired.
\<close>

definition ready_proxy :: world where
  "ready_proxy =
     run calm_env [CallStart, Resume 0, Resume 0, Resume 0, Resume 0, Resume 0, Resume 0]
       new_proxy"

text \<open>
  A session that is still polling, with a second \<^verbatim>\<open>start\<close> waiting on its gate.
\<close>

definition polling_proxy :: world where
  "polling_proxy = run calm_env [CallStart, Resume 0, Resume 0, CallStart] new_proxy"

text \<open>An installation where \<^verbatim>\<open>nbconvert\<close> is present once the dependencies are installed.\<close>

definition jupyter :: "(bool, string, string) collaborators" where
  "jupyter =
     \<lparr>isImportSupported = (\<lambda>s. (s, s)),
      installMissingDependencies = (\<lambda>_. True),
      manager_export = (\<lambda>f m s. (Inr (Some (m @ ''.'' @ f)), s))\<rparr>"

text \<open>An installation where installing the dependencies does not help.\<close>

definition broken_jupyter :: "(bool, string, string) collaborators" where
  "broken_jupyter = jupyter\<lparr>installMissingDependencies := (\<lambda>s. s)\<rparr>"

text \<open>A server event that names a method, and one that does not.\<close>

definition method_event :: "nat telemetryEvent" where
  "method_event =
     \<lparr>EventName = Some ''completion'', Measurements = 7,
      Properties = Some [''method'' \<mapsto> Str ''a/b/c'', ''pid'' \<mapsto> Num 4]\<rparr>"

definition plain_event :: "nat telemetryEvent" where
  "plain_event =
     \<lparr>EventName = None, Measurements = 7, Properties = Some [''pid'' \<mapsto> Num 4]\<rparr>"

text \<open>The transport's disposable and the progress reporting both throw when disposed.\<close>

definition throwing_twice_env :: env where
  "throwing_twice_env =
     calm_env\<lparr>dispose_throws :=
       (\<lambda>d. d = TransportStart 0 \<or> d = ProgressReporting (Some 0))\<rparr>"


section \<open>Properties of dispose\<close>

lemmas dispose_defs =
  dispose_def Let_def stop_client_def dispose_strategy_def replace_gate_def completed_def

lemmas step_defs =
  start_def resume_def serverReady_step_def loop_test_def sleep_def
  resolve_startupCompleted_def resolve_gate_def wire_features_def registerTestServices_def
  registerTestServices_body_def swallowExceptions_def Let_def

lemma run_append: "run env (as @ bs) w = run env bs (run env as w)"
  by (induction as arbitrary: w) auto

text \<open>The two concrete sessions, computed.\<close>

lemma ready_proxy_eq:
  "ready_proxy =
     \<lparr>languageClient = Some 0, startupCompleted = 0, cancellationStrategy = Some 0,
      disposables = [TransportStart 0, ProgressReporting (Some 0), InterpreterPathSubscription],
      disposed = False, lsVersion = Some ''0.5.30'',
      gates = (\<lambda>_. Pending)(0 := Resolved), next_gate = 1, strategies = 1, factory_calls = 1,
      reads = (\<lambda>_. 0)(0 := 3),
      trace = [GetDirectory, NewStrategy 0, CreateLanguageClient 0, ClientStart 0, Sleep 100,
               Sleep 100, GateResolve 0, OnTelemetryAttached 0, TestActivate 0],
      tasks = [Done]\<rparr>"
  by (simp add: ready_proxy_def new_proxy_def calm_env_def step_defs fun_eq_iff)

lemma polling_proxy_eq:
  "polling_proxy =
     \<lparr>languageClient = Some 0, startupCompleted = 0, cancellationStrategy = Some 0,
      disposables = [TransportStart 0],
      disposed = False, lsVersion = Some ''0.5.30'',
      gates = (\<lambda>_. Pending), next_gate = 1, strategies = 1, factory_calls = 1,
      reads = (\<lambda>_. 0)(0 := 1),
      trace = [GetDirectory, NewStrategy 0, CreateLanguageClient 0, ClientStart 0, Sleep 100],
      tasks = [AwaitSleep, AwaitGate 0]\<rparr>"
  by (simp add: polling_proxy_def new_proxy_def calm_env_def step_defs fun_eq_iff)

text \<open>
  The loop of \<open>drain\<close> in closed form: it calls the entries before the first one that
  throws, and that one; the entries behind it stay in the list.
\<close>

lemma drain_throw:
  "drain env ds =
     (case dropWhile (\<lambda>d. \<not> dispose_throws env d) ds of
        [] \<Rightarrow> None
      | d # _ \<Rightarrow> Some (DisposeThrew d),
      drop 1 (dropWhile (\<lambda>d. \<not> dispose_throws env d) ds),
      takeWhile (\<lambda>d. \<not> dispose_throws env d) ds
        @ take 1 (dropWhile (\<lambda>d. \<not> dispose_throws env d) ds))"
  by (induction ds) auto

lemma drain_None: "drain env ds = (None, rest, called) \<Longrightarrow> rest = [] \<and> called = ds"
  by (induction ds arbitrary: rest called) (auto split: if_splits prod.splits)

lemma dispose_calls_append: "dispose_calls (xs @ ys) = dispose_calls xs @ dispose_calls ys"
  by (induction xs rule: dispose_calls.induct) auto

lemma dispose_calls_map: "dispose_calls (map DisposeCall ds) = ds"
  by (induction ds) auto

text \<open>What holds after a \<^verbatim>\<open>dispose\<close> that ran to its end.\<close>

lemma dispose_returned:
  assumes "dispose env w = (None, w1)"
  shows "languageClient w1 = None" and "cancellationStrategy w1 = None"
    and "disposables w1 = []" and "disposed w1"
    and "gates w1 (startupCompleted w1) = Pending"
  using assms
  by (auto simp: dispose_defs split: prod.splits option.splits if_splits gate_state.splits
      dest: drain_None)

lemma dispose_frame:
  "tasks (snd (dispose env w)) = tasks w"
  "factory_calls (snd (dispose env w)) = factory_calls w"
  "reads (snd (dispose env w)) = reads w"
  by (auto simp: dispose_defs split: prod.splits option.splits)

text \<open>
  C7, as the code has it. When the first call of \<^verbatim>\<open>dispose\<close> returns (no entry of
  the list throws), a second call changes nothing: it returns without an exception and
  leaves every field of the proxy, the gate objects and the record of calls as the first
  call left them, so no handle is stopped or disposed twice.
\<close>

theorem dispose_idempotent:
  assumes "dispose env w = (None, w1)"
  shows "dispose env w1 = (None, w1)"
proof -
  note d = dispose_returned[OF assms]
  show ?thesis using d
    by (simp add: dispose_defs)
qed

theorem dispose_idempotent_witness:
  "dispose calm_env ready_proxy = (None, snd (dispose calm_env ready_proxy)) \<and>
   dispose calm_env (snd (dispose calm_env ready_proxy)) =
     (None, snd (dispose calm_env ready_proxy)) \<and>
   dispose_calls (trace (snd (dispose calm_env (snd (dispose calm_env ready_proxy))))) =
     [TransportStart 0, ProgressReporting (Some 0), InterpreterPathSubscription]"
proof -
  have f: "fst (dispose calm_env ready_proxy) = None"
    by (simp add: ready_proxy_eq calm_env_def dispose_defs)
  then have 1: "dispose calm_env ready_proxy = (None, snd (dispose calm_env ready_proxy))"
    by (simp add: prod_eq_iff)
  have 2: "dispose_calls (trace (snd (dispose calm_env ready_proxy))) =
             [TransportStart 0, ProgressReporting (Some 0), InterpreterPathSubscription]"
    by (simp add: ready_proxy_eq calm_env_def dispose_defs)
  have 3: "dispose calm_env (snd (dispose calm_env ready_proxy)) =
             (None, snd (dispose calm_env ready_proxy))"
    by (rule dispose_idempotent[OF 1])
  have 4: "dispose_calls (trace (snd (dispose calm_env (snd (dispose calm_env ready_proxy))))) =
             [TransportStart 0, ProgressReporting (Some 0), InterpreterPathSubscription]"
    by (simp only: 3 snd_conv 2)
  show ?thesis by (intro conjI) (rule 1, rule 3, rule 4)
qed

text \<open>
  C7 as stated fails. When the first entry of the list throws, the first call ends with
  that exception, with two entries still in the list, the resolved gate still current
  and the flag \<open>disposed\<close> unset; the second call then disposes those two entries,
  replaces the gate and sets the flag, so the state after two calls is not the state
  after one. When the second entry throws as well, the second call raises too.
\<close>

theorem dispose_after_aborted_dispose_differs:
  "fst (dispose throwing_env ready_proxy) = Some (DisposeThrew (TransportStart 0)) \<and>
   disposed (snd (dispose throwing_env ready_proxy)) = False \<and>
   disposables (snd (dispose throwing_env ready_proxy)) =
     [ProgressReporting (Some 0), InterpreterPathSubscription] \<and>
   startupCompleted (snd (dispose throwing_env ready_proxy)) = 0 \<and>
   fst (dispose throwing_env (snd (dispose throwing_env ready_proxy))) = None \<and>
   disposed (snd (dispose throwing_env (snd (dispose throwing_env ready_proxy)))) = True \<and>
   disposables (snd (dispose throwing_env (snd (dispose throwing_env ready_proxy)))) = [] \<and>
   startupCompleted (snd (dispose throwing_env (snd (dispose throwing_env ready_proxy)))) = 1 \<and>
   fst (dispose throwing_twice_env (snd (dispose throwing_twice_env ready_proxy))) =
     Some (DisposeThrew (ProgressReporting (Some 0)))"
  by (simp add: ready_proxy_eq throwing_env_def throwing_twice_env_def calm_env_def dispose_defs
      reject_gate_def)

text \<open>
  C5, as the code has it. The list is drained front to back, and the drain stops at the
  first entry whose \<^verbatim>\<open>dispose\<close> throws: \<^verbatim>\<open>dispose\<close> of the proxy ends with that
  exception, the entries behind the throwing one are not disposed and stay in the list.
  When no entry throws, every entry is disposed in list order and the list is left empty.
\<close>

theorem dispose_drain_stops_at_throw:
  "dispose_calls (trace (snd (dispose env w))) =
     dispose_calls (trace w)
       @ takeWhile (\<lambda>d. \<not> dispose_throws env d) (disposables w)
       @ take 1 (dropWhile (\<lambda>d. \<not> dispose_throws env d) (disposables w)) \<and>
   disposables (snd (dispose env w)) =
     drop 1 (dropWhile (\<lambda>d. \<not> dispose_throws env d) (disposables w)) \<and>
   fst (dispose env w) =
     (case dropWhile (\<lambda>d. \<not> dispose_throws env d) (disposables w) of
        [] \<Rightarrow> None
      | d # _ \<Rightarrow> Some (DisposeThrew d))"
proof -
  let ?w2 = "dispose_strategy (stop_client w)"
  have ds: "disposables ?w2 = disposables w"
    by (simp add: dispose_strategy_def stop_client_def split: option.splits)
  have tr: "dispose_calls (trace ?w2) = dispose_calls (trace w)"
    by (simp add: dispose_strategy_def stop_client_def dispose_calls_append split: option.splits)
  show ?thesis
    by (simp add: dispose_def Let_def drain_throw ds tr replace_gate_def dispose_calls_append
          dispose_calls_map split: list.splits)
qed

text \<open>
  C5 as stated fails: with three entries in the list and a first entry that throws,
  \<^verbatim>\<open>dispose\<close> ends with the exception after that one call; the other two entries
  are never disposed and are still in the list.
\<close>

theorem dispose_drain_aborted_by_throw:
  "disposables ready_proxy =
     [TransportStart 0, ProgressReporting (Some 0), InterpreterPathSubscription] \<and>
   fst (dispose throwing_env ready_proxy) = Some (DisposeThrew (TransportStart 0)) \<and>
   dispose_calls (trace (snd (dispose throwing_env ready_proxy))) = [TransportStart 0] \<and>
   disposables (snd (dispose throwing_env ready_proxy)) =
     [ProgressReporting (Some 0), InterpreterPathSubscription]"
  by (simp add: ready_proxy_eq throwing_env_def calm_env_def dispose_defs)

text \<open>
  C4, as the code has it. \<^verbatim>\<open>dispose\<close> never rejects a gate: no gate is in the
  rejected state afterwards that was not before. A gate that has not settled is left
  pending and stays the current gate. When the gate had already resolved and
  \<^verbatim>\<open>dispose\<close> runs to its end, the gate stays resolved (the call of \<^verbatim>\<open>reject\<close> has
  no effect on it) and a fresh pending gate becomes the current one.
\<close>

theorem dispose_settles_no_gate:
  assumes "startupCompleted w < next_gate w"
  shows "(gates w (startupCompleted w) = Pending \<longrightarrow>
            gates (snd (dispose env w)) = gates w \<and>
            startupCompleted (snd (dispose env w)) = startupCompleted w) \<and>
         (gates w (startupCompleted w) = Resolved \<and> fst (dispose env w) = None \<longrightarrow>
            gates (snd (dispose env w)) (startupCompleted w) = Resolved \<and>
            startupCompleted (snd (dispose env w)) = next_gate w \<and>
            gates (snd (dispose env w)) (next_gate w) = Pending) \<and>
         (\<forall>g. gates (snd (dispose env w)) g = Rejected \<longrightarrow> gates w g = Rejected)"
  using assms
  by (auto simp: dispose_defs reject_gate_def
      split: prod.splits option.splits gate_state.splits if_splits)

theorem dispose_settles_no_gate_witness:
  "startupCompleted ready_proxy < next_gate ready_proxy \<and>
   gates ready_proxy (startupCompleted ready_proxy) = Resolved \<and>
   fst (dispose calm_env ready_proxy) = None \<and>
   gates (snd (dispose calm_env ready_proxy)) 0 = Resolved \<and>
   startupCompleted (snd (dispose calm_env ready_proxy)) = 1 \<and>
   gates (snd (dispose calm_env ready_proxy)) 1 = Pending \<and>
   startupCompleted polling_proxy < next_gate polling_proxy \<and>
   gates polling_proxy (startupCompleted polling_proxy) = Pending \<and>
   gates (snd (dispose calm_env polling_proxy)) 0 = Pending \<and>
   startupCompleted (snd (dispose calm_env polling_proxy)) = 0"
proof -
  have r: "startupCompleted ready_proxy < next_gate ready_proxy"
    "gates ready_proxy (startupCompleted ready_proxy) = Resolved"
    "startupCompleted ready_proxy = 0" "next_gate ready_proxy = 1"
    by (simp_all add: ready_proxy_eq)
  have p: "startupCompleted polling_proxy < next_gate polling_proxy"
    "gates polling_proxy (startupCompleted polling_proxy) = Pending"
    "startupCompleted polling_proxy = 0"
    by (simp_all add: polling_proxy_eq)
  have f: "fst (dispose calm_env ready_proxy) = None"
    by (simp add: ready_proxy_eq calm_env_def dispose_defs)
  from dispose_settles_no_gate[OF r(1), of calm_env] r(2) f
  have "gates (snd (dispose calm_env ready_proxy)) (startupCompleted ready_proxy) = Resolved \<and>
        startupCompleted (snd (dispose calm_env ready_proxy)) = next_gate ready_proxy \<and>
        gates (snd (dispose calm_env ready_proxy)) (next_gate ready_proxy) = Pending"
    by blast
  then have a: "gates (snd (dispose calm_env ready_proxy)) 0 = Resolved \<and>
        startupCompleted (snd (dispose calm_env ready_proxy)) = 1 \<and>
        gates (snd (dispose calm_env ready_proxy)) 1 = Pending"
    by (simp only: r(3) r(4))
  from dispose_settles_no_gate[OF p(1), of calm_env] p(2)
  have "gates (snd (dispose calm_env polling_proxy)) = gates polling_proxy \<and>
        startupCompleted (snd (dispose calm_env polling_proxy)) = startupCompleted polling_proxy"
    by blast
  then have b: "gates (snd (dispose calm_env polling_proxy)) 0 = Pending \<and>
        startupCompleted (snd (dispose calm_env polling_proxy)) = 0"
    using p(2) by (simp only: p(3))
  show ?thesis using r(1,2) p(1,2) f a b by blast
qed

text \<open>
  C4 as stated fails. With a session that is still polling and a second \<^verbatim>\<open>start\<close>
  waiting on the pending gate, \<^verbatim>\<open>dispose\<close> runs to its end and the gate is still
  pending, not rejected: the waiting invocation, resumed, is still waiting. And with a
  gate that has resolved, \<^verbatim>\<open>dispose\<close> does call \<^verbatim>\<open>reject\<close> on it.
\<close>

theorem dispose_leaves_pending_gate_pending:
  "gates polling_proxy (startupCompleted polling_proxy) = Pending \<and>
   tasks polling_proxy ! 1 = AwaitGate (startupCompleted polling_proxy) \<and>
   fst (dispose calm_env polling_proxy) = None \<and>
   gates (snd (dispose calm_env polling_proxy)) (startupCompleted polling_proxy) = Pending \<and>
   tasks (resume calm_env 1 (snd (dispose calm_env polling_proxy))) ! 1 =
     AwaitGate (startupCompleted polling_proxy) \<and>
   gates ready_proxy (startupCompleted ready_proxy) = Resolved \<and>
   trace (snd (dispose calm_env ready_proxy)) =
     trace ready_proxy
       @ [ClientStop 0, StrategyDispose 0, DisposeCall (TransportStart 0),
          DisposeCall (ProgressReporting (Some 0)), DisposeCall InterpreterPathSubscription,
          GateReject (startupCompleted ready_proxy)]"
  by (simp add: polling_proxy_eq ready_proxy_eq calm_env_def dispose_defs resume_def)

section \<open>Properties of serverReady\<close>

text \<open>
  A client whose marker is absent at the next \<open>n\<close> reads and present at the read
  after them: the loop sleeps \<open>n\<close> times and then resolves the gate.
\<close>

lemma serverReady_polls:
  assumes "languageClient w = Some c"
    and "\<forall>k<n. \<not> initializeResult env c (reads w c + k)"
    and "initializeResult env c (reads w c + n)"
  shows "serverReady env w =
           Some (w\<lparr>reads := (reads w)(c := reads w c + Suc n),
                   gates := (gates w)(startupCompleted w :=
                              resolve_gate (gates w (startupCompleted w))),
                   trace := trace w @ replicate n (Sleep 100)
                              @ [GateResolve (startupCompleted w)]\<rparr>)"
  using assms
proof (induction n arbitrary: w)
  case 0
  then show ?case
    by (subst serverReady.simps) (simp add: loop_test_def resolve_startupCompleted_def Let_def)
next
  case (Suc n)
  let ?w' = "sleep 100 (w\<lparr>reads := (reads w)(c := Suc (reads w c))\<rparr>)"
  from Suc.prems have nr: "\<not> initializeResult env c (reads w c)"
    by (metis add.right_neutral zero_less_Suc)
  have 1: "languageClient ?w' = Some c"
    using Suc.prems by (simp add: sleep_def)
  have 2: "\<forall>k<n. \<not> initializeResult env c (reads ?w' c + k)"
    using Suc.prems(2) by (auto simp: sleep_def)
  have 3: "initializeResult env c (reads ?w' c + n)"
    using Suc.prems(3) by (simp add: sleep_def)
  have "serverReady env w = serverReady env ?w'"
    using Suc.prems(1) nr by (subst serverReady.simps) (simp add: loop_test_def)
  also note Suc.IH[OF 1 2 3]
  finally show ?case
    by (simp add: sleep_def cong: if_cong)
qed

text \<open>
  C9. Given a client whose \<^verbatim>\<open>initializeResult\<close> becomes present after the \<open>n\<close>-th
  poll, \<^verbatim>\<open>serverReady\<close> returns; what it has done by then is \<open>n\<close> sleeps of 100 ms
  each followed by one call of \<^verbatim>\<open>resolve\<close> on the current gate, and nothing after it;
  a gate that was pending is resolved.
\<close>

theorem serverReady_polls_then_resolves_once:
  assumes "languageClient w = Some c"
    and "\<forall>k<n. \<not> initializeResult env c (reads w c + k)"
    and "initializeResult env c (reads w c + n)"
  shows "\<exists>w'. serverReady env w = Some w' \<and>
           trace w' = trace w @ replicate n (Sleep 100) @ [GateResolve (startupCompleted w)] \<and>
           gates w' (startupCompleted w) = resolve_gate (gates w (startupCompleted w)) \<and>
           (gates w (startupCompleted w) = Pending \<longrightarrow> gates w' (startupCompleted w) = Resolved) \<and>
           startupCompleted w' = startupCompleted w \<and>
           reads w' c = reads w c + Suc n"
  using serverReady_polls[OF assms] by (simp add: resolve_gate_def)

theorem serverReady_polls_then_resolves_once_witness:
  "languageClient (new_proxy\<lparr>languageClient := Some 0\<rparr>) = Some 0 \<and>
   \<not> initializeResult calm_env 0 0 \<and> \<not> initializeResult calm_env 0 1 \<and>
   initializeResult calm_env 0 2 \<and>
   (\<exists>w'. serverReady calm_env (new_proxy\<lparr>languageClient := Some 0\<rparr>) = Some w' \<and>
      trace w' = [Sleep 100, Sleep 100, GateResolve 0] \<and> gates w' 0 = Resolved)"
proof -
  let ?w = "new_proxy\<lparr>languageClient := Some 0\<rparr>"
  have 1: "languageClient ?w = Some 0" by simp
  have 2: "\<forall>k<2. \<not> initializeResult calm_env 0 (reads ?w 0 + k)"
    by (simp add: calm_env_def new_proxy_def)
  have 3: "initializeResult calm_env 0 (reads ?w 0 + 2)"
    by (simp add: calm_env_def new_proxy_def)
  have 4: "replicate 2 (Sleep 100) = [Sleep 100, Sleep 100]"
    by (simp add: numeral_2_eq_2)
  from serverReady_polls_then_resolves_once[OF 1 2 3]
  obtain w' where w': "serverReady calm_env ?w = Some w'"
    "trace w' = trace ?w @ replicate 2 (Sleep 100) @ [GateResolve (startupCompleted ?w)]"
    "gates ?w (startupCompleted ?w) = Pending \<longrightarrow> gates w' (startupCompleted ?w) = Resolved"
    by blast
  have 5: "trace w' = [Sleep 100, Sleep 100, GateResolve 0]"
    using w'(2) by (simp add: 4 new_proxy_def)
  have 6: "gates w' 0 = Resolved"
    using w'(3) by (simp add: new_proxy_def)
  have 7: "\<not> initializeResult calm_env 0 0" "\<not> initializeResult calm_env 0 1"
    "initializeResult calm_env 0 2"
    by (simp_all add: calm_env_def)
  show ?thesis using 1 7 w'(1) 5 6 by blast
qed

section \<open>Properties of start\<close>

text \<open>The polls of an invocation that nothing interleaves with, resumed \<open>n + 1\<close> times.\<close>

lemma poll_run:
  assumes "t < length (tasks w)" and "tasks w ! t = AwaitSleep"
    and "languageClient w = Some c"
    and "\<forall>k<n. \<not> initializeResult env c (reads w c + k)"
    and "initializeResult env c (reads w c + n)"
  shows "run env (replicate (Suc n) (Resume t)) w =
           w\<lparr>reads := (reads w)(c := reads w c + Suc n),
             gates := (gates w)(startupCompleted w :=
                        resolve_gate (gates w (startupCompleted w))),
             trace := trace w @ replicate n (Sleep 100) @ [GateResolve (startupCompleted w)],
             tasks := (tasks w)[t := AwaitServerReady]\<rparr>"
  using assms
proof (induction n arbitrary: w)
  case 0
  then show ?case
    by (intro world.equality)
       (simp_all add: resume_def serverReady_step_def loop_test_def resolve_startupCompleted_def
          Let_def fun_eq_iff)
next
  case (Suc n)
  let ?w' = "resume env t w"
  from Suc.prems have nr: "\<not> initializeResult env c (reads w c)"
    by (metis add.right_neutral zero_less_Suc)
  have w': "?w' = w\<lparr>reads := (reads w)(c := Suc (reads w c)), trace := trace w @ [Sleep 100]\<rparr>"
    using Suc.prems(1,2,3) nr
    by (simp add: resume_def serverReady_step_def loop_test_def sleep_def list_update_same_conv)
  have 1: "t < length (tasks ?w')" "tasks ?w' ! t = AwaitSleep" "languageClient ?w' = Some c"
    using Suc.prems(1,2,3) by (simp_all add: w')
  have 2: "\<forall>k<n. \<not> initializeResult env c (reads ?w' c + k)"
    using Suc.prems(4) by (auto simp: w')
  have 3: "initializeResult env c (reads ?w' c + n)"
    using Suc.prems(5) by (simp add: w')
  have "run env (replicate (Suc (Suc n)) (Resume t)) w =
        run env (replicate (Suc n) (Resume t)) ?w'"
    by simp
  also note Suc.IH[OF 1 2 3]
  finally show ?case
    by (intro world.equality) (simp_all add: w' fun_eq_iff)
qed

text \<open>
  Resumed on its own, the invocation does what \<open>serverReady\<close> does in one go.
\<close>

lemma poll_run_serverReady:
  assumes "t < length (tasks w)" and "tasks w ! t = AwaitSleep"
    and "languageClient w = Some c"
    and "\<forall>k<n. \<not> initializeResult env c (reads w c + k)"
    and "initializeResult env c (reads w c + n)"
  shows "\<exists>w'. serverReady env w = Some w' \<and>
           run env (replicate (Suc n) (Resume t)) w = w'\<lparr>tasks := (tasks w)[t := AwaitServerReady]\<rparr>"
  unfolding poll_run[OF assms] serverReady_polls[OF assms(3,4,5)] by simp

text \<open>
  C2. When \<^verbatim>\<open>dispose\<close> runs (to its end) while an invocation of \<^verbatim>\<open>start\<close> is
  inside the readiness poll, the invocation, resumed, leaves the poll and returns at the
  disposed check: afterwards it is done, the only call it has made since the disposal is
  the \<^verbatim>\<open>resolve\<close> of the gate (no telemetry relay attached, no test registration),
  the list of disposables is empty (no progress reporting and no interpreter-path
  subscription registered), and the client handle is undefined.
\<close>

theorem dispose_during_poll_skips_wiring:
  assumes "t < length (tasks w)" and "tasks w ! t = AwaitSleep"
    and "dispose env w = (None, w1)"
  shows "tasks (run env [Resume t, Resume t] w1) ! t = Done \<and>
         trace (run env [Resume t, Resume t] w1) = trace w1 @ [GateResolve (startupCompleted w1)] \<and>
         disposables (run env [Resume t, Resume t] w1) = [] \<and>
         languageClient (run env [Resume t, Resume t] w1) = None \<and>
         tasks (resume env t w1) ! t = AwaitServerReady \<and> disposed (resume env t w1)"
proof -
  have tk: "tasks w1 = tasks w"
    using dispose_frame(1)[of env w] assms(3) by simp
  note d = dispose_returned[OF assms(3)]
  show ?thesis using assms(1,2) d tk
    by (simp add: resume_def serverReady_step_def loop_test_def resolve_startupCompleted_def Let_def)
qed

theorem dispose_during_poll_skips_wiring_witness:
  "0 < length (tasks polling_proxy) \<and> tasks polling_proxy ! 0 = AwaitSleep \<and>
   fst (dispose calm_env polling_proxy) = None \<and>
   tasks (run calm_env [Resume 0, Resume 0] (snd (dispose calm_env polling_proxy))) ! 0 = Done \<and>
   disposables (run calm_env [Resume 0, Resume 0] (snd (dispose calm_env polling_proxy))) = [] \<and>
   languageClient (run calm_env [Resume 0, Resume 0] (snd (dispose calm_env polling_proxy))) = None"
proof -
  have 1: "0 < length (tasks polling_proxy)" and 2: "tasks polling_proxy ! 0 = AwaitSleep"
    by (simp_all add: polling_proxy_eq)
  have f: "fst (dispose calm_env polling_proxy) = None"
    by (simp add: polling_proxy_eq calm_env_def dispose_defs)
  then have 3: "dispose calm_env polling_proxy = (None, snd (dispose calm_env polling_proxy))"
    by (simp add: prod_eq_iff)
  show ?thesis
    using 1 2 f dispose_during_poll_skips_wiring[OF 1 2 3] by blast
qed

text \<open>
  What does not change when other code runs: an invocation is moved on only by its own
  resumption, the flag \<open>disposed\<close> is never reset, and no gate is ever rejected.
\<close>

lemma continue_start_keeps:
  assumes "continue_start env p w = (p', w')"
  shows "tasks w' = tasks w" and "disposed w' = disposed w"
    and "(\<forall>g. gates w g \<noteq> Rejected) \<Longrightarrow> (\<forall>g. gates w' g \<noteq> Rejected)"
  using assms
  by (cases p; auto simp: serverReady_step_def loop_test_def sleep_def resolve_startupCompleted_def
        resolve_gate_def wire_features_def registerTestServices_def registerTestServices_body_def
        swallowExceptions_def Let_def split: if_splits option.splits gate_state.splits prod.splits)+

lemma perform_keeps_disposed: "disposed w \<Longrightarrow> disposed (perform env a w)"
proof (cases a)
  case CallStart
  then show "disposed w \<Longrightarrow> ?thesis" by (simp add: start_def)
next
  case CallDispose
  then show "disposed w \<Longrightarrow> ?thesis"
    by (auto simp: dispose_defs split: prod.splits option.splits)
next
  case (Resume t)
  then show "disposed w \<Longrightarrow> ?thesis"
    using continue_start_keeps(2)[of env "tasks w ! t" w]
    by (auto simp: resume_def split: prod.splits)
qed

lemma disposed_stays: "disposed w \<Longrightarrow> disposed (run env as w)"
  by (induction as arbitrary: w) (auto intro: perform_keeps_disposed)

lemma perform_rejects_no_gate:
  assumes "\<forall>g. gates w g \<noteq> Rejected"
  shows "\<forall>g. gates (perform env a w) g \<noteq> Rejected"
proof (cases a)
  case CallStart
  then show ?thesis using assms by (simp add: start_def)
next
  case CallDispose
  then show ?thesis using assms
    by (auto simp: dispose_defs reject_gate_def split: prod.splits option.splits gate_state.splits)
next
  case (Resume t)
  then show ?thesis
    using continue_start_keeps(3)[of env "tasks w ! t" w, OF _ assms] assms
    by (auto simp: resume_def split: prod.splits)
qed

lemma no_gate_rejected: "gates (run env as new_proxy) g \<noteq> Rejected"
proof -
  have "(\<forall>g. gates w g \<noteq> Rejected) \<Longrightarrow> (\<forall>g. gates (run env as w) g \<noteq> Rejected)" for w
    by (induction as arbitrary: w) (auto dest: perform_rejects_no_gate)
  then show ?thesis by (simp add: new_proxy_def)
qed

lemma perform_other_task:
  assumes "t < length (tasks w)" and "a \<noteq> Resume t"
  shows "t < length (tasks (perform env a w)) \<and> tasks (perform env a w) ! t = tasks w ! t"
proof (cases a)
  case CallStart
  then show ?thesis using assms by (simp add: start_def nth_append)
next
  case CallDispose
  then show ?thesis using assms by (simp add: dispose_frame)
next
  case (Resume t')
  then show ?thesis
    using assms continue_start_keeps(1)[of env "tasks w ! t'" w]
    by (auto simp: resume_def split: prod.splits)
qed

lemma run_other_tasks:
  assumes "t < length (tasks w)" and "Resume t \<notin> set as"
  shows "t < length (tasks (run env as w)) \<and> tasks (run env as w) ! t = tasks w ! t"
  using assms
proof (induction as arbitrary: w)
  case Nil
  then show ?case by simp
next
  case (Cons a as)
  from Cons.prems have "a \<noteq> Resume t" by auto
  from perform_other_task[OF Cons.prems(1) this, of env] Cons.IH[of "perform env a w"] Cons.prems(2)
  show ?case by simp
qed

lemma resume_directory:
  assumes "i < length (tasks w)" and "tasks w ! i = AwaitDirectory"
  shows "factory_calls (resume env i w) = Suc (factory_calls w)"
    and "tasks (resume env i w) = (tasks w)[i := AwaitFactory (factory_calls w)]"
  using assms by (simp_all add: resume_def)

text \<open>
  A \<^verbatim>\<open>start\<close> called while the client handle is undefined invokes the factory at its
  first resumption, whatever is scheduled before that.
\<close>

lemma new_start_invokes_factory:
  assumes "languageClient w = None" and "Resume (length (tasks w)) \<notin> set as"
  shows "factory_calls (run env (CallStart # as @ [Resume (length (tasks w))]) w) =
           Suc (factory_calls (run env (CallStart # as) w))"
proof -
  let ?t = "length (tasks w)"
  have s: "?t < length (tasks (start w))" "tasks (start w) ! ?t = AwaitDirectory"
    using assms(1) by (simp_all add: start_def)
  from run_other_tasks[OF s(1) assms(2), of env] s(2)
  have "?t < length (tasks (run env as (start w)))"
    "tasks (run env as (start w)) ! ?t = AwaitDirectory"
    by simp_all
  from resume_directory(1)[OF this, of env] show ?thesis
    by (simp add: run_append)
qed

text \<open>
  A \<^verbatim>\<open>start\<close> called on a disposed proxy whose client handle is undefined, and resumed
  until it is done with nothing else scheduled in between: the whole state at the end.
\<close>

lemma restart_run:
  assumes nc: "languageClient w1 = None" and dz: "disposed w1"
    and ok: "\<not> factory_fails env (factory_calls w1)"
    and notyet: "\<forall>k<n. \<not> initializeResult env (factory_calls w1)
                          (reads w1 (factory_calls w1) + k)"
    and ready: "initializeResult env (factory_calls w1) (reads w1 (factory_calls w1) + n)"
  shows "run env (CallStart # replicate (n + 3) (Resume (length (tasks w1)))) w1 =
           w1\<lparr>languageClient := Some (factory_calls w1),
              cancellationStrategy := Some (strategies w1),
              disposables := disposables w1 @ [TransportStart (factory_calls w1)],
              lsVersion := directory_version env,
              gates := (gates w1)(startupCompleted w1 :=
                         resolve_gate (gates w1 (startupCompleted w1))),
              strategies := Suc (strategies w1),
              factory_calls := Suc (factory_calls w1),
              reads := (reads w1)(factory_calls w1 := reads w1 (factory_calls w1) + Suc n),
              trace := trace w1 @ [GetDirectory, NewStrategy (strategies w1),
                         CreateLanguageClient (factory_calls w1), ClientStart (factory_calls w1)]
                       @ replicate n (Sleep 100) @ [GateResolve (startupCompleted w1)],
              tasks := tasks w1 @ [Done]\<rparr>"
proof -
  let ?t = "length (tasks w1)" and ?c = "factory_calls w1"
  show ?thesis
  proof (cases n)
    case 0
    with ready have r: "initializeResult env ?c (reads w1 ?c)" by simp
    show ?thesis using nc dz ok r 0
      by (intro world.equality)
         (simp_all add: numeral_3_eq_3 start_def resume_def serverReady_step_def loop_test_def
            resolve_startupCompleted_def Let_def fun_eq_iff)
  next
    case (Suc m)
    with notyet have nr: "\<not> initializeResult env ?c (reads w1 ?c)"
      by (metis add.right_neutral zero_less_Suc)
    let ?wS = "w1\<lparr>languageClient := Some ?c,
              cancellationStrategy := Some (strategies w1),
              disposables := disposables w1 @ [TransportStart ?c],
              lsVersion := directory_version env,
              strategies := Suc (strategies w1),
              factory_calls := Suc ?c,
              reads := (reads w1)(?c := Suc (reads w1 ?c)),
              trace := trace w1 @ [GetDirectory, NewStrategy (strategies w1),
                         CreateLanguageClient ?c, ClientStart ?c, Sleep 100],
              tasks := tasks w1 @ [AwaitSleep]\<rparr>"
    have s3: "run env [CallStart, Resume ?t, Resume ?t] w1 = ?wS"
      using nc ok nr
      by (intro world.equality)
         (simp_all add: start_def resume_def serverReady_step_def loop_test_def sleep_def
            Let_def fun_eq_iff)
    have 1: "?t < length (tasks ?wS)" "tasks ?wS ! ?t = AwaitSleep" "languageClient ?wS = Some ?c"
      by simp_all
    have 2: "\<forall>k<m. \<not> initializeResult env ?c (reads ?wS ?c + k)"
      using notyet Suc by auto
    have 3: "initializeResult env ?c (reads ?wS ?c + m)"
      using ready Suc by simp
    have split: "CallStart # replicate (n + 3) (Resume ?t) =
                 [CallStart, Resume ?t, Resume ?t] @ replicate (Suc m) (Resume ?t) @ [Resume ?t]"
      using Suc by (simp add: numeral_3_eq_3 replicate_append_same)
    have "run env (CallStart # replicate (n + 3) (Resume ?t)) w1 =
          resume env ?t (run env (replicate (Suc m) (Resume ?t)) ?wS)"
      unfolding split run_append s3 by simp
    also note poll_run[OF 1 2 3]
    finally show ?thesis using dz Suc
      by (intro world.equality) (simp_all add: resume_def fun_eq_iff)
  qed
qed




text \<open>
  The flag \<open>disposed\<close> is never reset, so the session such a \<^verbatim>\<open>start\<close> begins gets
  none of the subsidiary features: the invocation returns at the disposed check.
\<close>

lemma restart_wires_nothing:
  assumes "languageClient w1 = None" and "disposed w1"
    and "\<not> factory_fails env (factory_calls w1)"
    and "\<forall>k<n. \<not> initializeResult env (factory_calls w1) (reads w1 (factory_calls w1) + k)"
    and "initializeResult env (factory_calls w1) (reads w1 (factory_calls w1) + n)"
  shows "disposed (run env (CallStart # replicate (n + 3) (Resume (length (tasks w1)))) w1) \<and>
         disposables (run env (CallStart # replicate (n + 3) (Resume (length (tasks w1)))) w1) =
           disposables w1 @ [TransportStart (factory_calls w1)]"
  using assms(2) unfolding restart_run[OF assms] by simp

text \<open>
  Calls of \<^verbatim>\<open>start\<close> made one after the other while there is no client handle each
  stop at line 90, and each of them, resumed there, invokes the factory.
\<close>

lemma starts_without_client:
  "languageClient w = None \<Longrightarrow>
   run env (replicate n CallStart) w =
     w\<lparr>trace := trace w @ replicate n GetDirectory,
       tasks := tasks w @ replicate n AwaitDirectory\<rparr>"
proof (induction n arbitrary: w)
  case 0
  show ?case by simp
next
  case (Suc n)
  have "languageClient (start w) = None"
    using Suc.prems by (simp add: start_def)
  from Suc.IH[OF this] show ?case using Suc.prems
    by (simp add: start_def)
qed

lemma starts_on_fresh:
  "run env (replicate n CallStart) new_proxy =
     new_proxy\<lparr>trace := replicate n GetDirectory, tasks := replicate n AwaitDirectory\<rparr>"
  using starts_without_client[of new_proxy env n] by (simp add: new_proxy_def)

lemma resume_each:
  assumes "n = length (tasks w)"
    and "\<forall>j. i \<le> j \<and> j < n \<longrightarrow> tasks w ! j = AwaitDirectory"
  shows "factory_calls (run env (map Resume [i..<n]) w) = factory_calls w + (n - i)"
  using assms
proof (induction "n - i" arbitrary: i w)
  case 0
  then show ?case by simp
next
  case (Suc k)
  then have lt: "i < n" by simp
  have a: "i < length (tasks w)" "tasks w ! i = AwaitDirectory"
    using Suc.prems lt by auto
  note r = resume_directory[OF a, of env]
  have b: "n = length (tasks (resume env i w))"
    using Suc.prems r(2) by simp
  have c: "\<forall>j. Suc i \<le> j \<and> j < n \<longrightarrow> tasks (resume env i w) ! j = AwaitDirectory"
    using Suc.prems r(2) by auto
  have d: "k = n - Suc i"
    using Suc.hyps(2) by simp
  have "run env (map Resume [i..<n]) w = run env (map Resume [Suc i..<n]) (resume env i w)"
    using lt by (simp add: upt_conv_Cons)
  then show ?case using Suc.hyps(1)[OF d b c] r(1) lt by simp
qed

text \<open>
  C1, on the code. After \<open>n\<close> calls of \<^verbatim>\<open>start\<close> on a freshly constructed proxy, made
  before any of them is resumed, and one resumption of each, the factory has been invoked
  \<open>n\<close> times: two calls give two invocations, where the claim says one. The client
  handle is set only at line 96, after two \<^verbatim>\<open>await\<close>s, so every one of the calls
  finds it undefined at line 89.
\<close>

theorem concurrent_starts_each_invoke_factory:
  "factory_calls (run env (replicate n CallStart @ map Resume [0..<n]) new_proxy) = n"
proof -
  let ?w = "run env (replicate n CallStart) new_proxy"
  have "factory_calls (run env (map Resume [0..<n]) ?w) = factory_calls ?w + (n - 0)"
    by (rule resume_each) (simp_all add: starts_on_fresh)
  moreover have "factory_calls ?w = 0"
    by (simp add: starts_on_fresh) (simp add: new_proxy_def)
  ultimately show ?thesis by (simp add: run_append)
qed

text \<open>
  A call of \<^verbatim>\<open>start\<close> made once the client handle is set does wait on the gate: it
  invokes nothing, and while the gate is pending it stays suspended at line 134.
\<close>

lemma late_start_waits_on_gate:
  assumes "languageClient w = Some c" and "gates w (startupCompleted w) = Pending"
  shows "resume env (length (tasks w)) (start w) =
           w\<lparr>tasks := tasks w @ [AwaitGate (startupCompleted w)]\<rparr>"
  using assms by (simp add: start_def resume_def)

text \<open>The same for two calls, with the four factory and strategy calls in the order made.\<close>

lemma two_starts_two_clients:
  "trace (run env [CallStart, CallStart, Resume 0, Resume 1] new_proxy) =
     [GetDirectory, GetDirectory, NewStrategy 0, CreateLanguageClient 0,
      NewStrategy 1, CreateLanguageClient 1]"
  by (simp add: new_proxy_def step_defs)

section \<open>Properties of registerTestServices\<close>

text \<open>
  C3, as the code has it. When \<^verbatim>\<open>registerTestServices\<close> is invoked while the client
  handle is undefined, its body throws the error \<^verbatim>\<open>languageClient not initialized\<close>,
  and the decorator swallows it: the caller sees a normal return, the error is only
  logged, and \<^verbatim>\<open>testManager.activate\<close> is not called.
\<close>

theorem registerTestServices_error_swallowed:
  assumes "languageClient w = None"
  shows "registerTestServices_body env w = (Some LanguageClientNotInitialized, w) \<and>
         registerTestServices env w =
           (None, w\<lparr>trace := trace w @
              [TraceError ''Activating Unit Tests Manager for Language Server''
                 LanguageClientNotInitialized]\<rparr>)"
  using assms
  by (simp add: registerTestServices_def registerTestServices_body_def swallowExceptions_def)

theorem registerTestServices_error_swallowed_witness:
  "languageClient new_proxy = None \<and>
   registerTestServices_body calm_env new_proxy = (Some LanguageClientNotInitialized, new_proxy) \<and>
   trace (snd (registerTestServices calm_env new_proxy)) =
     [TraceError ''Activating Unit Tests Manager for Language Server''
        LanguageClientNotInitialized]"
proof -
  have 1: "languageClient new_proxy = None" by (simp add: new_proxy_def)
  have 2: "trace new_proxy = []" by (simp add: new_proxy_def)
  from registerTestServices_error_swallowed[OF 1, of calm_env] 1 2 show ?thesis by simp
qed

text \<open>
  C3 as stated fails: on a freshly constructed proxy, which has no client, the caller of
  \<^verbatim>\<open>registerTestServices\<close> gets no error.
\<close>

theorem registerTestServices_reports_no_error:
  "languageClient new_proxy = None \<and> fst (registerTestServices calm_env new_proxy) = None"
  by (simp add: registerTestServices_def registerTestServices_body_def swallowExceptions_def
      new_proxy_def)

section \<open>Properties of the telemetry relay\<close>

text \<open>
  C6. For an event with a \<^verbatim>\<open>Properties\<close> object: when \<^verbatim>\<open>method\<close> is the string
  \<^verbatim>\<open>a/b/c\<close> the relay forwards \<^verbatim>\<open>a.b.c\<close>; for any string it forwards the string
  of the same length in which every slash is a dot and every other character is itself;
  and when there is no \<^verbatim>\<open>method\<close> property the relay does not throw and every
  property other than \<^verbatim>\<open>method\<close> is forwarded as it is.
\<close>

theorem telemetry_method_sanitized:
  assumes "Properties ev = Some ps"
  shows "(ps ''method'' = Some (Str ''a/b/c'') \<longrightarrow>
            (\<exists>n m fp. onTelemetry_handler fallback ev = Inr (n, m, fp) \<and>
               fp ''method'' = Some (Str ''a.b.c''))) \<and>
         (\<forall>s. ps ''method'' = Some (Str s) \<longrightarrow>
            (\<exists>n m fp s'. onTelemetry_handler fallback ev = Inr (n, m, fp) \<and>
               fp ''method'' = Some (Str s') \<and> length s' = length s \<and>
               (\<forall>i<length s. s' ! i = (if s ! i = CHR ''/'' then CHR ''.'' else s ! i)))) \<and>
         (ps ''method'' = None \<longrightarrow>
            (\<exists>n m fp. onTelemetry_handler fallback ev = Inr (n, m, fp) \<and>
               (\<forall>k. k \<noteq> ''method'' \<longrightarrow> fp k = ps k)))"
  using assms
  by (auto simp: onTelemetry_handler_def sanitize_method_def Let_def replace_slashes_def)

theorem telemetry_method_sanitized_witness:
  "Properties method_event = Some [''method'' \<mapsto> Str ''a/b/c'', ''pid'' \<mapsto> Num 4] \<and>
   (\<exists>n m fp. onTelemetry_handler ''LANGUAGE_SERVER'' method_event = Inr (n, m, fp) \<and>
      fp ''method'' = Some (Str ''a.b.c'')) \<and>
   Properties plain_event = Some [''pid'' \<mapsto> Num 4] \<and>
   (\<exists>n m fp. onTelemetry_handler ''LANGUAGE_SERVER'' plain_event = Inr (n, m, fp) \<and>
      fp ''pid'' = Some (Num 4))"
proof -
  have 1: "Properties method_event = Some [''method'' \<mapsto> Str ''a/b/c'', ''pid'' \<mapsto> Num 4]"
    by (simp add: method_event_def)
  have 2: "Properties plain_event = Some [''pid'' \<mapsto> Num 4]"
    by (simp add: plain_event_def)
  from telemetry_method_sanitized[OF 1, of "''LANGUAGE_SERVER''"]
  have a: "\<exists>n m fp. onTelemetry_handler ''LANGUAGE_SERVER'' method_event = Inr (n, m, fp) \<and>
             fp ''method'' = Some (Str ''a.b.c'')"
    by simp
  from telemetry_method_sanitized[OF 2, of "''LANGUAGE_SERVER''"]
  have "\<exists>n m fp. onTelemetry_handler ''LANGUAGE_SERVER'' plain_event = Inr (n, m, fp) \<and>
          (\<forall>k. k \<noteq> ''method'' \<longrightarrow> fp k = [''pid'' \<mapsto> Num 4] k)"
    by simp
  then obtain n m fp where h: "onTelemetry_handler ''LANGUAGE_SERVER'' plain_event = Inr (n, m, fp)"
    "\<forall>k. k \<noteq> ''method'' \<longrightarrow> fp k = [''pid'' \<mapsto> Num 4] k"
    by blast
  from h(2) have "fp ''pid'' = Some (Num 4)" by simp
  with h(1) have b: "\<exists>n m fp. onTelemetry_handler ''LANGUAGE_SERVER'' plain_event = Inr (n, m, fp) \<and>
                       fp ''pid'' = Some (Num 4)"
    by blast
  show ?thesis using 1 2 a b by blast
qed

section \<open>Properties of the export dependency checker\<close>

text \<open>
  C10. For every format and model, with \<open>b1\<close> the answer of the first
  \<^verbatim>\<open>isImportSupported\<close> check and \<open>b2\<close> the answer of the second: the calls that
  \<^verbatim>\<open>export\<close> makes are the first check, \<^verbatim>\<open>installMissingDependencies\<close> exactly when
  \<open>b1\<close> is false, the second check, and \<^verbatim>\<open>manager.export(format, model)\<close> exactly when
  \<open>b2\<close> is true; its result is the result of \<^verbatim>\<open>manager.export\<close> when \<open>b2\<close> is
  true and the error \<^verbatim>\<open>jupyterNbConvertNotSupported\<close> otherwise.
\<close>

theorem export_checks_dependencies:
  "(let b1 = fst (isImportSupported co s0);
        s1 = snd (isImportSupported co s0);
        s2 = (if b1 then s1 else installMissingDependencies co s1);
        b2 = fst (isImportSupported co s2);
        s3 = snd (isImportSupported co s2);
        out = export co format model (s0, calls0)
    in snd (snd out) =
         calls0 @ [IsImportSupported]
           @ (if b1 then [] else [InstallMissingDependencies])
           @ [IsImportSupported]
           @ (if b2 then [ManagerExport format model] else []) \<and>
       fst out =
         (if b2 then fst (manager_export co format model s3)
          else Inl JupyterNbConvertNotSupported))"
  by (simp add: export_def Let_def split: prod.splits)

text \<open>
  Three runs: dependencies missing and installed, missing and not installable, present.
\<close>

lemma export_examples:
  "export jupyter ''pdf'' ''nb'' (False, []) =
     (Inr (Some ''nb.pdf''), True,
      [IsImportSupported, InstallMissingDependencies, IsImportSupported,
       ManagerExport ''pdf'' ''nb''])"
  "export broken_jupyter ''pdf'' ''nb'' (False, []) =
     (Inl JupyterNbConvertNotSupported, False,
      [IsImportSupported, InstallMissingDependencies, IsImportSupported])"
  "export jupyter ''pdf'' ''nb'' (True, []) =
     (Inr (Some ''nb.pdf''), True,
      [IsImportSupported, IsImportSupported, ManagerExport ''pdf'' ''nb''])"
  by (simp_all add: export_def jupyter_def broken_jupyter_def)

end
